theory Spec2Isabelle
  imports Complex_Main "HOL-Library.Word"
begin

unbundle bit_operations_syntax

section \<open>Numbers and points\<close>

text \<open>
  The TypeScript \<^verbatim>\<open>number\<close> is modelled as \<^typ>\<open>real\<close>: finite, with exact
  arithmetic. Rounding, infinities and NaN are not represented, so every statement
  below is about the arithmetic the code writes down, not about its rounding error.
  A point count is an \<^typ>\<open>int\<close>.

  \<^verbatim>\<open>paper.Point\<close> is an immutable pair of coordinates with the three methods
  the code uses: \<^verbatim>\<open>add\<close>, \<^verbatim>\<open>subtract\<close> and \<^verbatim>\<open>multiply\<close> by a number.
  A reference that may be \<^verbatim>\<open>null\<close> is a \<^typ>\<open>'a option\<close>.
\<close>

record point =
  px :: real
  py :: real

definition Point :: "real \<Rightarrow> real \<Rightarrow> point" where
  "Point a b = \<lparr>px = a, py = b\<rparr>"

definition add :: "point \<Rightarrow> point \<Rightarrow> point" where
  "add p q = Point (px p + px q) (py p + py q)"

definition subtract :: "point \<Rightarrow> point \<Rightarrow> point" where
  "subtract p q = Point (px p - px q) (py p - py q)"

definition multiply :: "point \<Rightarrow> real \<Rightarrow> point" where
  "multiply p k = Point (px p * k) (py p * k)"

section \<open>Curves\<close>

text \<open>
  \<^verbatim>\<open>Curvelike\<close> is the interface the projector takes: a \<^verbatim>\<open>length\<close> and
  the arc-length query \<^verbatim>\<open>getPointAt\<close>, which answers \<^verbatim>\<open>null\<close> where the
  curve has no point. An object is the record of what it answers, so a curve of any
  shape is a value of this type. A \<^verbatim>\<open>paper.Path\<close> that the code reads is a
  \<^verbatim>\<open>Curvelike\<close> with segments, a closed flag, a clockwise flag and a visibility.
\<close>

record curvelike =
  length_c :: real
  getPointAt :: "real \<Rightarrow> point option"

record segment =
  point_s :: point
  handleIn :: point
  handleOut :: point

record path = curvelike +
  segments :: "segment list"
  closed_p :: bool
  clockwise :: bool
  visible :: bool

section \<open>The dual-boundary projector\<close>

text \<open>
  \<^verbatim>\<open>dualBoundsPathProjection\<close> (SketchStore.ts) reads the two lengths once and
  returns the closure over them. Both boundary queries take \<^verbatim>\<open>unitPoint.x\<close>.
  The \<^verbatim>\<open>console.warn\<close> of the null branch writes a diagnostic and has no other
  effect; it is left out.
\<close>

definition dualBoundsPathProjection ::
  "'a curvelike_scheme \<Rightarrow> 'b curvelike_scheme \<Rightarrow> point \<Rightarrow> point option" where
  "dualBoundsPathProjection topPath bottomPath =
     (let topPathLength = length_c topPath;
          bottomPathLength = length_c bottomPath
      in (\<lambda>unitPoint.
           let topPoint = getPointAt topPath (px unitPoint * topPathLength);
               bottomPoint = getPointAt bottomPath (px unitPoint * bottomPathLength)
           in if topPoint = None \<or> bottomPoint = None
              then topPoint
              else Some (add (the topPoint)
                          (multiply (subtract (the bottomPoint) (the topPoint)) (py unitPoint)))))"

text \<open>
  The projection as the specification words it, for comparison: the lower boundary is
  queried at \<open>v\<close> times its length.
\<close>

definition spec_projection ::
  "'a curvelike_scheme \<Rightarrow> 'b curvelike_scheme \<Rightarrow> point \<Rightarrow> point option" where
  "spec_projection upper lower unitPoint =
     (let topPoint = getPointAt upper (px unitPoint * length_c upper);
          bottomPoint = getPointAt lower (py unitPoint * length_c lower)
      in case (topPoint, bottomPoint) of
           (Some t, Some b) \<Rightarrow> Some (add t (multiply (subtract b t) (py unitPoint)))
         | _ \<Rightarrow> topPoint)"

text \<open>Three concrete curves of length 1: a stationary one, a ramp along the x axis, and
  one with no point anywhere.\<close>

definition still_curve :: curvelike where
  "still_curve = \<lparr>length_c = 1, getPointAt = (\<lambda>d. Some (Point 0 0))\<rparr>"

definition ramp_curve :: curvelike where
  "ramp_curve = \<lparr>length_c = 1, getPointAt = (\<lambda>d. Some (Point d 1))\<rparr>"

definition empty_curve :: curvelike where
  "empty_curve = \<lparr>length_c = 1, getPointAt = (\<lambda>d. None)\<rparr>"

section \<open>The curve sampler\<close>

text \<open>
  \<^verbatim>\<open>tracePathAsPoints\<close> (SketchStore.ts) and the body of
  \<^verbatim>\<open>PathHelper.tracePath\<close> are the same loop:
  \<^verbatim>\<open>while (i++ < numPoints) { points.push(path.getPointAt(Math.min(offset, pathLength))); offset += offsetIncr }\<close>.
  The loop is the recursive function below: its arguments are the variables the loop
  reads and writes, and it terminates because \<open>numPoints - i\<close> decreases. The
  quotient \<open>pathLength / numPoints\<close> is only read inside the loop, which does not
  run when \<open>numPoints \<le> 0\<close>.
\<close>

function tracePathAsPoints_loop ::
  "'a curvelike_scheme \<Rightarrow> int \<Rightarrow> real \<Rightarrow> real \<Rightarrow> int \<Rightarrow> real \<Rightarrow> point option list
     \<Rightarrow> point option list" where
  "tracePathAsPoints_loop path numPoints pathLength offsetIncr i offset points =
     (if i < numPoints
      then tracePathAsPoints_loop path numPoints pathLength offsetIncr (i + 1)
             (offset + offsetIncr) (points @ [getPointAt path (min offset pathLength)])
      else points)"
  by pat_completeness auto
termination
  by (relation "measure (\<lambda>(path, numPoints, pathLength, offsetIncr, i, offset, points).
        nat (numPoints - i))") auto

declare tracePathAsPoints_loop.simps [simp del]

definition tracePathAsPoints :: "'a curvelike_scheme \<Rightarrow> int \<Rightarrow> point option list" where
  "tracePathAsPoints path numPoints =
     (let pathLength = length_c path;
          offsetIncr = pathLength / of_int numPoints
      in tracePathAsPoints_loop path numPoints pathLength offsetIncr 0 0 [])"

text \<open>
  The same loop, recording the argument of each \<^verbatim>\<open>getPointAt\<close> call instead of
  its answer: the distances the sampler asks the path about, in order.
\<close>

function tracePathAsPoints_offsets_loop ::
  "int \<Rightarrow> real \<Rightarrow> real \<Rightarrow> int \<Rightarrow> real \<Rightarrow> real list \<Rightarrow> real list" where
  "tracePathAsPoints_offsets_loop numPoints pathLength offsetIncr i offset asked =
     (if i < numPoints
      then tracePathAsPoints_offsets_loop numPoints pathLength offsetIncr (i + 1)
             (offset + offsetIncr) (asked @ [min offset pathLength])
      else asked)"
  by pat_completeness auto
termination
  by (relation "measure (\<lambda>(numPoints, pathLength, offsetIncr, i, offset, asked).
        nat (numPoints - i))") auto

declare tracePathAsPoints_offsets_loop.simps [simp del]

definition tracePathAsPoints_offsets :: "'a curvelike_scheme \<Rightarrow> int \<Rightarrow> real list" where
  "tracePathAsPoints_offsets path numPoints =
     (let pathLength = length_c path;
          offsetIncr = pathLength / of_int numPoints
      in tracePathAsPoints_offsets_loop numPoints pathLength offsetIncr 0 0 [])"

text \<open>
  A path that the code constructs is the record of the properties it hands to
  \<^verbatim>\<open>new paper.Path\<close>: the points (some possibly \<^verbatim>\<open>null\<close>), the closed flag
  (false when not given) and the clockwise flag (absent when not given). What the
  library derives from them (curves, length, bounds) is not part of the model.
\<close>

record path_new =
  segments_n :: "point option list"
  closed_n :: bool
  clockwise_n :: "bool option"

definition tracePath :: "path \<Rightarrow> int \<Rightarrow> path_new" where
  "tracePath path numPoints =
     (let points = tracePathAsPoints path numPoints
      in \<lparr>segments_n = points, closed_n = True, clockwise_n = Some (clockwise path)\<rparr>)"

definition PathHelper_tracePath :: "path \<Rightarrow> int \<Rightarrow> path_new" where
  "PathHelper_tracePath path numPoints =
     (let pathLength = length_c path;
          offsetIncr = pathLength / of_int numPoints;
          points = tracePathAsPoints_loop path numPoints pathLength offsetIncr 0 0 []
      in \<lparr>segments_n = points, closed_n = False, clockwise_n = None\<rparr>)"

subsection \<open>Compound paths\<close>

record rectangle =
  topLeft :: point
  width :: real
  height :: real

definition topRight :: "rectangle \<Rightarrow> point" where
  "topRight r = Point (px (topLeft r) + width r) (py (topLeft r))"

definition bottomLeft :: "rectangle \<Rightarrow> point" where
  "bottomLeft r = Point (px (topLeft r)) (py (topLeft r) + height r)"

definition bottomRight :: "rectangle \<Rightarrow> point" where
  "bottomRight r = Point (px (topLeft r) + width r) (py (topLeft r) + height r)"

record compound_path =
  children :: "path list"
  clockwise_cp :: bool
  bounds :: rectangle
  visible_cp :: bool

record compound_path_new =
  children_n :: "path_new list"
  clockwise_cn :: bool
  fillColor_cn :: "string option"

text \<open>\<^verbatim>\<open>null\<close> is \<open>None\<close>; \<^verbatim>\<open>!path.children.length\<close> holds when there is no child.\<close>

definition traceCompoundPath :: "compound_path \<Rightarrow> int \<Rightarrow> compound_path_new option" where
  "traceCompoundPath path pointsPerPath =
     (if length (children path) = 0 then None
      else let paths = map (\<lambda>p. tracePath p pointsPerPath) (children path)
           in Some \<lparr>children_n = paths, clockwise_cn = clockwise_cp path, fillColor_cn = None\<rparr>)"

definition PathHelper_traceCompoundPath :: "compound_path \<Rightarrow> int \<Rightarrow> compound_path_new option" where
  "PathHelper_traceCompoundPath path pointsPerPath =
     (if length (children path) = 0 then None
      else let paths = map (\<lambda>p. PathHelper_tracePath p pointsPerPath) (children path)
           in Some \<lparr>children_n = paths, clockwise_cn = clockwise_cp path,
                    fillColor_cn = Some ''lightgray''\<rparr>)"

text \<open>A straight unit path along the x axis, and a compound path holding it.\<close>

definition line_path :: path where
  "line_path = \<lparr>length_c = 1, getPointAt = (\<lambda>d. if 0 \<le> d \<and> d \<le> 1 then Some (Point d 0) else None),
     segments = [\<lparr>point_s = Point 0 0, handleIn = Point 0 0, handleOut = Point 0 0\<rparr>,
                 \<lparr>point_s = Point 1 0, handleIn = Point 0 0, handleOut = Point 0 0\<rparr>],
     closed_p = False, clockwise = True, visible = True\<rparr>"

definition no_children :: compound_path where
  "no_children = \<lparr>children = [], clockwise_cp = True,
     bounds = \<lparr>topLeft = Point 0 0, width = 0, height = 0\<rparr>, visible_cp = True\<rparr>"

definition one_child :: compound_path where
  "one_child = \<lparr>children = [line_path], clockwise_cp = True,
     bounds = \<lparr>topLeft = Point 0 0, width = 1, height = 1\<rparr>, visible_cp = True\<rparr>"

section \<open>The warp composite\<close>

text \<open>
  \<^verbatim>\<open>DualBoundsPathWarp\<close> keeps a reference to the source compound path that its
  caller also holds, and its getter hands out a clone. Compound paths therefore live in
  a store: a list of objects, a reference being an index into it. Reading a property
  through a reference that points at no object is the \<^verbatim>\<open>TypeError\<close> of
  JavaScript. The boundaries, the outline and the warped children belong to the
  composite and are fields of its record; \<open>emitted\<close> is the log of the change
  flags it has passed to \<^verbatim>\<open>_changed\<close>.
\<close>

datatype error = TypeError

definition deref :: "compound_path list \<Rightarrow> nat \<Rightarrow> error + compound_path" where
  "deref h r = (if r < length h then Inr (h ! r) else Inl TypeError)"

record sketchItemStyle =
  strokeColor :: "string option"
  backgroundColor :: "string option"

record outline_path =
  segments_o :: "segment list"
  closed_o :: bool
  fillColor_o :: "string option"
  opacity_o :: real

record dualBoundsPathWarp =
  source_w :: nat
  upper :: path
  lower :: path
  warped :: "path_new list"
  warped_style :: "sketchItemStyle option"
  outline :: outline_path
  customStyle_w :: "sketchItemStyle option"
  selected :: bool
  emitted :: "32 word list"

record world =
  heap :: "compound_path list"
  composite :: dualBoundsPathWarp

text \<open>
  The change flags of \<^verbatim>\<open>PaperNotify.ChangeFlag\<close> are bit masks whose declaration
  is not among the sources; the model takes the three it uses as a parameter.
\<close>

record changeFlag =
  SEGMENTS :: "32 word"
  GEOMETRY :: "32 word"
  ATTRIBUTE :: "32 word"

definition POINTS_PER_PATH :: int where
  "POINTS_PER_PATH = 200"

text \<open>
  Modelled from the spec: the class \<^verbatim>\<open>PathTransform\<close> is missing from the sources;
  it wraps a point transform, and \<^verbatim>\<open>transformPoint\<close> applies "the coordinate
  transform" to a point.
\<close>

datatype pathTransform = PathTransform (pointTransform: "point option \<Rightarrow> point option")

definition transformPoint :: "pathTransform \<Rightarrow> point option \<Rightarrow> point option" where
  "transformPoint t p = pointTransform t p"

text \<open>
  \<^verbatim>\<open>updateWarped\<close>. The two quotients are real division: for a source whose
  bounding box has zero width or height JavaScript yields a non-finite number there,
  which the model does not represent, and no statement below relies on the value of
  a warped coordinate in that case.
\<close>

definition updateWarped :: "world \<Rightarrow> error + world" where
  "updateWarped w =
     (let this = composite w in
      case deref (heap w) (source_w this) of
        Inl e \<Rightarrow> Inl e
      | Inr src \<Rightarrow>
          let orthOrigin = topLeft (bounds src);
              orthWidth = width (bounds src);
              orthHeight = height (bounds src);
              projection = dualBoundsPathProjection (upper this) (lower this);
              transform = PathTransform (\<lambda>point.
                case point of
                  None \<Rightarrow> None
                | Some p \<Rightarrow>
                    let relative = subtract p orthOrigin;
                        unit = Point (px relative / orthWidth) (py relative / orthHeight);
                        projected = projection unit
                    in projected);
              newPaths = map (\<lambda>path.
                let xPoints = map (\<lambda>p. transformPoint transform p)
                                (tracePathAsPoints path POINTS_PER_PATH)
                in \<lparr>segments_n = xPoints, closed_n = True, clockwise_n = Some (clockwise path)\<rparr>)
                (children src)
          in Inr (w\<lparr>composite := this\<lparr>warped := newPaths\<rparr>\<rparr>))"

text \<open>
  \<^verbatim>\<open>Path.reverse\<close> of the library: the segments in the opposite order, each with
  its two handles exchanged. \<^verbatim>\<open>updateOutlineShape\<close> reverses a temporary copy of
  the lower boundary, so the boundary itself keeps its order.
\<close>

definition reverse_segment :: "segment \<Rightarrow> segment" where
  "reverse_segment s = \<lparr>point_s = point_s s, handleIn = handleOut s, handleOut = handleIn s\<rparr>"

definition reverse_p :: "segment list \<Rightarrow> segment list" where
  "reverse_p ss = rev (map reverse_segment ss)"

definition updateOutlineShape :: "world \<Rightarrow> world" where
  "updateOutlineShape w =
     (let this = composite w;
          lower_segments = reverse_p (segments (lower this))
      in w\<lparr>composite := this\<lparr>outline := (outline this)
             \<lparr>segments_o := segments (upper this) @ lower_segments\<rparr>\<rparr>\<rparr>)"

definition changed :: "32 word \<Rightarrow> world \<Rightarrow> world" where
  "changed flags w = w\<lparr>composite := (composite w)\<lparr>emitted := emitted (composite w) @ [flags]\<rparr>\<rparr>"

text \<open>The observer of both boundaries; a number is true when it is not zero.\<close>

definition boundsWatch :: "changeFlag \<Rightarrow> 32 word \<Rightarrow> world \<Rightarrow> error + world" where
  "boundsWatch cf flags w =
     (if flags AND SEGMENTS cf \<noteq> 0
      then case updateWarped (updateOutlineShape w) of
             Inl e \<Rightarrow> Inl e
           | Inr w' \<Rightarrow> Inr (changed (GEOMETRY cf) w')
      else Inr w)"

text \<open>The observer of the composite itself.\<close>

definition attributeWatch :: "changeFlag \<Rightarrow> 32 word \<Rightarrow> world \<Rightarrow> world" where
  "attributeWatch cf flags w =
     (let this = composite w in
      if flags AND ATTRIBUTE cf \<noteq> 0
      then if visible (upper this) \<noteq> selected this
           then w\<lparr>composite := this\<lparr>upper := (upper this)\<lparr>visible := selected this\<rparr>,
                                     lower := (lower this)\<lparr>visible := selected this\<rparr>\<rparr>\<rparr>
           else w
      else w)"

text \<open>
  The accessors of \<^verbatim>\<open>source\<close>. \<^verbatim>\<open>clone\<close> makes a new object with the
  contents of the one it is called on: the store grows by one object and the new
  reference is returned. The setter stores the reference it is given.
\<close>

definition get_source :: "world \<Rightarrow> error + (nat \<times> world)" where
  "get_source w =
     (case deref (heap w) (source_w (composite w)) of
        Inl e \<Rightarrow> Inl e
      | Inr src \<Rightarrow> Inr (length (heap w), w\<lparr>heap := heap w @ [src]\<rparr>))"

definition set_source :: "nat \<Rightarrow> world \<Rightarrow> error + world" where
  "set_source v w = updateWarped (w\<lparr>composite := (composite w)\<lparr>source_w := v\<rparr>\<rparr>)"

text \<open>A string is true when it is not empty.\<close>

definition set_customStyle :: "sketchItemStyle \<Rightarrow> world \<Rightarrow> world" where
  "set_customStyle v w =
     (let this = (composite w)\<lparr>customStyle_w := Some v, warped_style := Some v\<rparr> in
      if backgroundColor v \<noteq> None \<and> backgroundColor v \<noteq> Some []
      then w\<lparr>composite := this\<lparr>outline := (outline this)
             \<lparr>fillColor_o := backgroundColor v, opacity_o := 1\<rparr>\<rparr>\<rparr>
      else w\<lparr>composite := this\<lparr>outline := (outline this)
             \<lparr>fillColor_o := Some ''white'', opacity_o := 0\<rparr>\<rparr>\<rparr>)"

text \<open>
  The constructor. The class \<^verbatim>\<open>StretchPath\<close> is missing from the sources, so
  the function that makes a boundary path from its segments is a parameter
  \<open>StretchPath\<close>. An item is not selected when it is made. The children that
  \<^verbatim>\<open>new paper.CompoundPath(source.pathData)\<close> parses are removed by
  \<^verbatim>\<open>updateWarped\<close> before anything reads them.
\<close>

definition Segment :: "point \<Rightarrow> segment" where
  "Segment p = \<lparr>point_s = p, handleIn = Point 0 0, handleOut = Point 0 0\<rparr>"

definition DualBoundsPathWarp ::
  "(segment list \<Rightarrow> path) \<Rightarrow> nat \<Rightarrow> (segment list \<times> segment list) option
     \<Rightarrow> sketchItemStyle option \<Rightarrow> compound_path list \<Rightarrow> error + world" where
  "DualBoundsPathWarp StretchPath source bnds customStyle h =
     (case deref h source of
        Inl e \<Rightarrow> Inl e
      | Inr src \<Rightarrow>
          let h1 = h[source := src\<lparr>visible_cp := False\<rparr>];
              up = (case bnds of
                      Some (u, l) \<Rightarrow> StretchPath u
                    | None \<Rightarrow> StretchPath [Segment (topLeft (bounds src)),
                                            Segment (topRight (bounds src))]);
              lo = (case bnds of
                      Some (u, l) \<Rightarrow> StretchPath l
                    | None \<Rightarrow> StretchPath [Segment (bottomLeft (bounds src)),
                                            Segment (bottomRight (bounds src))]);
              this = \<lparr>source_w = source,
                      upper = up\<lparr>visible := False\<rparr>,
                      lower = lo\<lparr>visible := False\<rparr>,
                      warped = [],
                      warped_style = None,
                      outline = \<lparr>segments_o = [], closed_o = True, fillColor_o = None,
                                 opacity_o = 1\<rparr>,
                      customStyle_w = None,
                      selected = False,
                      emitted = []\<rparr>
          in (case updateWarped (updateOutlineShape \<lparr>heap = h1, composite = this\<rparr>) of
                Inl e \<Rightarrow> Inl e
              | Inr w \<Rightarrow>
                  Inr (set_customStyle
                         (case customStyle of
                            Some s \<Rightarrow> s
                          | None \<Rightarrow> \<lparr>strokeColor = Some ''lightgray'', backgroundColor = None\<rparr>)
                         w)))"

text \<open>
  The states of a composite: the one its constructor leaves, and every state that the
  code of the class or the code around it makes from one. Around it, the user edits a
  boundary, the scene selects or deselects the item, and whoever holds a compound path
  changes it or makes a new one. A source that is set is a compound path, as the
  setter's parameter type says.
\<close>

inductive reachable :: "(segment list \<Rightarrow> path) \<Rightarrow> changeFlag \<Rightarrow> world \<Rightarrow> bool"
  for StretchPath :: "segment list \<Rightarrow> path" and cf :: changeFlag where
  constructed:
    "DualBoundsPathWarp StretchPath source bnds customStyle h = Inr w \<Longrightarrow> reachable StretchPath cf w"
| boundary_edited:
    "reachable StretchPath cf w \<Longrightarrow>
     reachable StretchPath cf (w\<lparr>composite := (composite w)\<lparr>upper := u, lower := l\<rparr>\<rparr>)"
| boundary_notified:
    "reachable StretchPath cf w \<Longrightarrow> boundsWatch cf flags w = Inr w' \<Longrightarrow> reachable StretchPath cf w'"
| selection_changed:
    "reachable StretchPath cf w \<Longrightarrow>
     reachable StretchPath cf (w\<lparr>composite := (composite w)\<lparr>selected := s\<rparr>\<rparr>)"
| composite_notified:
    "reachable StretchPath cf w \<Longrightarrow> reachable StretchPath cf (attributeWatch cf flags w)"
| source_read:
    "reachable StretchPath cf w \<Longrightarrow> get_source w = Inr (r, w') \<Longrightarrow> reachable StretchPath cf w'"
| source_set:
    "reachable StretchPath cf w \<Longrightarrow> set_source v w = Inr w' \<Longrightarrow> reachable StretchPath cf w'"
| style_set:
    "reachable StretchPath cf w \<Longrightarrow> reachable StretchPath cf (set_customStyle v w)"
| object_changed:
    "reachable StretchPath cf w \<Longrightarrow> r < length (heap w) \<Longrightarrow>
     reachable StretchPath cf (w\<lparr>heap := (heap w)[r := obj]\<rparr>)"
| object_made:
    "reachable StretchPath cf w \<Longrightarrow> reachable StretchPath cf (w\<lparr>heap := heap w @ [obj]\<rparr>)"

text \<open>The warped contour that the specification describes for one source contour.\<close>

definition spec_warp_contour :: "compound_path \<Rightarrow> path \<Rightarrow> path \<Rightarrow> path \<Rightarrow> path_new" where
  "spec_warp_contour src up lo contour =
     \<lparr>segments_n =
        map (\<lambda>s. case s of
                   None \<Rightarrow> None
                 | Some p \<Rightarrow>
                     dualBoundsPathProjection up lo
                       (Point ((px p - px (topLeft (bounds src))) / width (bounds src))
                              ((py p - py (topLeft (bounds src))) / height (bounds src))))
            (tracePathAsPoints contour 200),
      closed_n = True,
      clockwise_n = Some (clockwise contour)\<rparr>"

text \<open>Concrete values: the flags as the library numbers them, a boundary maker that
  answers for a straight unit line whatever its segments, and a store of one object.\<close>

definition paper_flags :: changeFlag where
  "paper_flags = \<lparr>SEGMENTS = 16, GEOMETRY = 8, ATTRIBUTE = 128\<rparr>"

definition line_maker :: "segment list \<Rightarrow> path" where
  "line_maker ss = line_path\<lparr>segments := ss\<rparr>"

definition first_world :: world where
  "first_world = projr (DualBoundsPathWarp line_maker 0 None None [one_child])"

section \<open>Double arithmetic\<close>

text \<open>
  The numbers of the program are IEEE 754 binary64 values, and every operation rounds
  its exact result to the nearest of them, ties to the even significand. A finite
  double is \<open>Fin r\<close> for the real \<open>r\<close> it denotes; the other values are the two
  infinities and NaN. The sign of zero is not represented: \<open>-0\<close> and \<open>+0\<close> are one
  value, and a zero divisor counts as \<open>+0\<close>.

  \<open>fl\<close> rounds a real: with \<open>e\<close> the binary exponent of \<open>r\<close> (not below the least
  normal exponent \<open>-1022\<close>), the result is the multiple of \<open>2 ^ (e - 52)\<close> nearest to
  \<open>r\<close>, and an infinity when that is \<open>2 ^ 1024\<close> or beyond.
\<close>

datatype double = Fin real | PInf | NInf | NaN

function bits :: "int \<Rightarrow> int" where
  "bits n = (if n \<le> 0 then 0 else 1 + bits (n div 2))"
  by pat_completeness auto
termination
  by (relation "measure nat") auto

declare bits.simps [simp del]

definition pow2 :: "int \<Rightarrow> real" where
  "pow2 e = (if 0 \<le> e then 2 ^ nat e else 1 / 2 ^ nat (- e))"

definition ilog2 :: "real \<Rightarrow> int" where
  "ilog2 r = (if 1 \<le> \<bar>r\<bar> then bits \<lfloor>\<bar>r\<bar>\<rfloor> - 1 else - bits (\<lceil>1 / \<bar>r\<bar>\<rceil> - 1))"

definition round_half_even :: "real \<Rightarrow> int" where
  "round_half_even x =
     (let f = \<lfloor>x\<rfloor>; d = x - of_int f
      in if d < 1 / 2 then f else if 1 / 2 < d then f + 1 else if even f then f else f + 1)"

definition fl :: "real \<Rightarrow> double" where
  "fl r =
     (if r = 0 then Fin 0
      else let e = max (ilog2 r) (- 1022);
               q = pow2 (e - 52);
               v = of_int (round_half_even (r / q)) * q
           in if 2 ^ 1024 \<le> \<bar>v\<bar> then (if 0 < r then PInf else NInf) else Fin v)"








section \<open>The sampler and the projector over an arithmetic\<close>

text \<open>
  The same two functions of SketchStore.ts once more, with the arithmetic they use
  as a parameter: the zero, the four operations, \<^verbatim>\<open>Math.min\<close> and the conversion of
  an integer. With \<open>ieee\<close> they compute what the program computes; with \<open>exact\<close>
  they are the functions over the reals above.
\<close>

record 'n arith =
  zero_a :: 'n
  plus_a :: "'n \<Rightarrow> 'n \<Rightarrow> 'n"
  minus_a :: "'n \<Rightarrow> 'n \<Rightarrow> 'n"
  times_a :: "'n \<Rightarrow> 'n \<Rightarrow> 'n"
  divide_a :: "'n \<Rightarrow> 'n \<Rightarrow> 'n"
  min_a :: "'n \<Rightarrow> 'n \<Rightarrow> 'n"
  of_int_a :: "int \<Rightarrow> 'n"


definition exact :: "real arith" where
  "exact = \<lparr>zero_a = 0, plus_a = (+), minus_a = (-), times_a = (*), divide_a = (/),
             min_a = min, of_int_a = of_int\<rparr>"

record 'n point_in =
  x_in :: 'n
  y_in :: 'n

definition add_in :: "'n arith \<Rightarrow> 'n point_in \<Rightarrow> 'n point_in \<Rightarrow> 'n point_in" where
  "add_in ar p q = \<lparr>x_in = plus_a ar (x_in p) (x_in q), y_in = plus_a ar (y_in p) (y_in q)\<rparr>"

definition subtract_in :: "'n arith \<Rightarrow> 'n point_in \<Rightarrow> 'n point_in \<Rightarrow> 'n point_in" where
  "subtract_in ar p q = \<lparr>x_in = minus_a ar (x_in p) (x_in q), y_in = minus_a ar (y_in p) (y_in q)\<rparr>"

definition multiply_in :: "'n arith \<Rightarrow> 'n point_in \<Rightarrow> 'n \<Rightarrow> 'n point_in" where
  "multiply_in ar p k = \<lparr>x_in = times_a ar (x_in p) k, y_in = times_a ar (y_in p) k\<rparr>"



record ('n, 'p) curve_in =
  length_in :: 'n
  getPointAt_in :: "'n \<Rightarrow> 'p option"

function tracePathAsPoints_loop_in ::
  "'n arith \<Rightarrow> ('n, 'p) curve_in \<Rightarrow> int \<Rightarrow> 'n \<Rightarrow> 'n \<Rightarrow> int \<Rightarrow> 'n \<Rightarrow> 'p option list
     \<Rightarrow> 'p option list" where
  "tracePathAsPoints_loop_in ar path numPoints pathLength offsetIncr i offset points =
     (if i < numPoints
      then tracePathAsPoints_loop_in ar path numPoints pathLength offsetIncr (i + 1)
             (plus_a ar offset offsetIncr)
             (points @ [getPointAt_in path (min_a ar offset pathLength)])
      else points)"
  by pat_completeness auto
termination
  by (relation "measure (\<lambda>(ar, path, numPoints, pathLength, offsetIncr, i, offset, points).
        nat (numPoints - i))") auto

declare tracePathAsPoints_loop_in.simps [simp del]

definition tracePathAsPoints_in :: "'n arith \<Rightarrow> ('n, 'p) curve_in \<Rightarrow> int \<Rightarrow> 'p option list" where
  "tracePathAsPoints_in ar path numPoints =
     (let pathLength = length_in path;
          offsetIncr = divide_a ar pathLength (of_int_a ar numPoints)
      in tracePathAsPoints_loop_in ar path numPoints pathLength offsetIncr 0 (zero_a ar) [])"

text \<open>The value of \<^verbatim>\<open>offset\<close> after \<open>k\<close> rounds of the loop: \<open>k\<close> additions of the
  increment to zero, one after the other.\<close>

fun offset_after :: "'n arith \<Rightarrow> 'n \<Rightarrow> nat \<Rightarrow> 'n" where
  "offset_after ar offsetIncr 0 = zero_a ar"
| "offset_after ar offsetIncr (Suc k) = plus_a ar (offset_after ar offsetIncr k) offsetIncr"

definition dualBoundsPathProjection_in ::
  "'n arith \<Rightarrow> ('n, 'n point_in) curve_in \<Rightarrow> ('n, 'n point_in) curve_in \<Rightarrow> 'n point_in
     \<Rightarrow> 'n point_in option" where
  "dualBoundsPathProjection_in ar topPath bottomPath =
     (let topPathLength = length_in topPath;
          bottomPathLength = length_in bottomPath
      in (\<lambda>unitPoint.
           let topPoint = getPointAt_in topPath (times_a ar (x_in unitPoint) topPathLength);
               bottomPoint = getPointAt_in bottomPath (times_a ar (x_in unitPoint) bottomPathLength)
           in if topPoint = None \<or> bottomPoint = None
              then topPoint
              else Some (add_in ar (the topPoint)
                          (multiply_in ar (subtract_in ar (the bottomPoint) (the topPoint))
                             (y_in unitPoint)))))"








section \<open>The path that the library builds\<close>










section \<open>Auxiliary facts\<close>

subsection \<open>Points\<close>

lemma Point_eq_iff [simp]: "Point a b = Point c d \<longleftrightarrow> a = c \<and> b = d"
  by (simp add: Point_def)

lemma px_Point [simp]: "px (Point a b) = a"
  by (simp add: Point_def)

lemma py_Point [simp]: "py (Point a b) = b"
  by (simp add: Point_def)

subsection \<open>The sampling loop in closed form\<close>

text \<open>
  The loop leaves the running offset at \<open>k\<close> increments after \<open>k\<close> rounds, so its
  result is a map over the round numbers. The recording loop has the same closed form,
  which is what ties the recorded distances to the points that were sampled.
\<close>

lemma map_upt_Suc0: "map f [0..<Suc j] = f 0 # map (\<lambda>k. f (Suc k)) [0..<j]"
  by (simp only: upt_conv_Cons[of 0 "Suc j"] map_Suc_upt[symmetric]) (simp add: comp_def)

lemma tracePathAsPoints_loop_eq:
  "tracePathAsPoints_loop path n L incr i off pts =
     pts @ map (\<lambda>k. getPointAt path (min (off + real k * incr) L)) [0..<nat (n - i)]"
proof (induction path n L incr i off pts rule: tracePathAsPoints_loop.induct)
  case (1 path n L incr i off pts)
  show ?case
  proof (cases "i < n")
    case True
    define j where "j = nat (n - (i + 1))"
    have more: "nat (n - i) = Suc j"
      using True by (simp add: j_def)
    have "tracePathAsPoints_loop path n L incr i off pts =
          tracePathAsPoints_loop path n L incr (i + 1) (off + incr) (pts @ [getPointAt path (min off L)])"
      using True by (subst tracePathAsPoints_loop.simps) simp
    also have "\<dots> = (pts @ [getPointAt path (min off L)]) @
        map (\<lambda>k. getPointAt path (min (off + incr + real k * incr) L)) [0..<j]"
      unfolding j_def using "1.IH"[OF True] .
    also have "\<dots> = pts @ map (\<lambda>k. getPointAt path (min (off + real k * incr) L)) [0..<Suc j]"
      by (simp only: map_upt_Suc0) (simp add: algebra_simps)
    finally show ?thesis
      by (simp only: more)
  next
    case False
    then show ?thesis by (subst tracePathAsPoints_loop.simps) simp
  qed
qed

lemma tracePathAsPoints_offsets_loop_eq:
  "tracePathAsPoints_offsets_loop n L incr i off asked =
     asked @ map (\<lambda>k. min (off + real k * incr) L) [0..<nat (n - i)]"
proof (induction n L incr i off asked rule: tracePathAsPoints_offsets_loop.induct)
  case (1 n L incr i off asked)
  show ?case
  proof (cases "i < n")
    case True
    define j where "j = nat (n - (i + 1))"
    have more: "nat (n - i) = Suc j"
      using True by (simp add: j_def)
    have "tracePathAsPoints_offsets_loop n L incr i off asked =
          tracePathAsPoints_offsets_loop n L incr (i + 1) (off + incr) (asked @ [min off L])"
      using True by (subst tracePathAsPoints_offsets_loop.simps) simp
    also have "\<dots> = (asked @ [min off L]) @
        map (\<lambda>k. min (off + incr + real k * incr) L) [0..<j]"
      unfolding j_def using "1.IH"[OF True] .
    also have "\<dots> = asked @ map (\<lambda>k. min (off + real k * incr) L) [0..<Suc j]"
      by (simp only: map_upt_Suc0) (simp add: algebra_simps)
    finally show ?thesis
      by (simp only: more)
  next
    case False
    then show ?thesis by (subst tracePathAsPoints_offsets_loop.simps) simp
  qed
qed

lemma tracePathAsPoints_eq:
  "tracePathAsPoints path n =
     map (\<lambda>k. getPointAt path (min (real k * (length_c path / of_int n)) (length_c path))) [0..<nat n]"
  by (simp add: tracePathAsPoints_def tracePathAsPoints_loop_eq Let_def)

lemma tracePathAsPoints_offsets_eq:
  "tracePathAsPoints_offsets path n =
     map (\<lambda>k. min (real k * (length_c path / of_int n)) (length_c path)) [0..<nat n]"
  by (simp add: tracePathAsPoints_offsets_def tracePathAsPoints_offsets_loop_eq Let_def)

lemma tracePathAsPoints_asks:
  "tracePathAsPoints path n = map (getPointAt path) (tracePathAsPoints_offsets path n)"
  by (simp add: tracePathAsPoints_eq tracePathAsPoints_offsets_eq comp_def)

subsection \<open>The operations of the composite\<close>

lemma deref_Inr_iff: "deref h r = Inr x \<longleftrightarrow> r < length h \<and> x = h ! r"
  by (auto simp add: deref_def)

lemma updateWarped_Inr:
  assumes "deref (heap w) (source_w (composite w)) = Inr src"
  shows "updateWarped w =
     Inr (w\<lparr>composite := (composite w)\<lparr>warped :=
            map (spec_warp_contour src (upper (composite w)) (lower (composite w))) (children src)\<rparr>\<rparr>)"
  using assms
  by (simp add: updateWarped_def Let_def spec_warp_contour_def transformPoint_def
      POINTS_PER_PATH_def subtract_def comp_def cong: option.case_cong)

lemma updateWarped_Inr_D:
  assumes "updateWarped w = Inr w'"
  shows "\<exists>src. deref (heap w) (source_w (composite w)) = Inr src \<and>
     w' = w\<lparr>composite := (composite w)\<lparr>warped :=
            map (spec_warp_contour src (upper (composite w)) (lower (composite w))) (children src)\<rparr>\<rparr>"
proof (cases "deref (heap w) (source_w (composite w))")
  case (Inl e)
  then show ?thesis using assms by (simp add: updateWarped_def Let_def)
next
  case (Inr src)
  then show ?thesis using assms updateWarped_Inr[OF Inr] by simp
qed

lemma updateOutlineShape_simps:
  "heap (updateOutlineShape w) = heap w"
  "source_w (composite (updateOutlineShape w)) = source_w (composite w)"
  "upper (composite (updateOutlineShape w)) = upper (composite w)"
  "lower (composite (updateOutlineShape w)) = lower (composite w)"
  "emitted (composite (updateOutlineShape w)) = emitted (composite w)"
  "closed_o (outline (composite (updateOutlineShape w))) = closed_o (outline (composite w))"
  "segments_o (outline (composite (updateOutlineShape w))) =
     segments (upper (composite w)) @ reverse_p (segments (lower (composite w)))"
  by (simp_all add: updateOutlineShape_def Let_def)

lemma set_customStyle_simps:
  "heap (set_customStyle v w) = heap w"
  "source_w (composite (set_customStyle v w)) = source_w (composite w)"
  "closed_o (outline (composite (set_customStyle v w))) = closed_o (outline (composite w))"
  "upper (composite (set_customStyle v w)) = upper (composite w)"
  "lower (composite (set_customStyle v w)) = lower (composite w)"
  "emitted (composite (set_customStyle v w)) = emitted (composite w)"
  by (simp_all add: set_customStyle_def Let_def)

lemma attributeWatch_simps:
  "heap (attributeWatch cf flags w) = heap w"
  "source_w (composite (attributeWatch cf flags w)) = source_w (composite w)"
  "outline (composite (attributeWatch cf flags w)) = outline (composite w)"
  by (simp_all add: attributeWatch_def Let_def)

lemma boundsWatch_Inr:
  assumes "flags AND SEGMENTS cf \<noteq> 0"
    and "deref (heap w) (source_w (composite w)) = Inr src"
  shows "boundsWatch cf flags w =
     Inr (changed (GEOMETRY cf)
       ((updateOutlineShape w)\<lparr>composite := (composite (updateOutlineShape w))\<lparr>warped :=
          map (spec_warp_contour src (upper (composite w)) (lower (composite w))) (children src)\<rparr>\<rparr>))"
proof -
  have "deref (heap (updateOutlineShape w)) (source_w (composite (updateOutlineShape w))) = Inr src"
    using assms(2) by (simp add: updateOutlineShape_simps)
  from updateWarped_Inr[OF this] show ?thesis
    using assms(1) by (simp add: boundsWatch_def updateOutlineShape_simps)
qed

lemma boundsWatch_keeps:
  assumes "boundsWatch cf flags w = Inr w'"
  shows "heap w' = heap w \<and> source_w (composite w') = source_w (composite w) \<and>
         closed_o (outline (composite w')) = closed_o (outline (composite w))"
proof (cases "flags AND SEGMENTS cf \<noteq> 0")
  case True
  with assms obtain w1 where w1: "updateWarped (updateOutlineShape w) = Inr w1"
    and w': "w' = changed (GEOMETRY cf) w1"
    by (auto simp add: boundsWatch_def split: sum.splits)
  from updateWarped_Inr_D[OF w1] show ?thesis
    by (auto simp add: w' changed_def updateOutlineShape_simps)
next
  case False
  with assms show ?thesis by (simp add: boundsWatch_def)
qed

lemma DualBoundsPathWarp_Inr:
  assumes "deref h source = Inr src"
  shows "\<exists>w. DualBoundsPathWarp mk source bnds customStyle h = Inr w \<and>
           heap w = h[source := src\<lparr>visible_cp := False\<rparr>] \<and>
           source_w (composite w) = source \<and>
           closed_o (outline (composite w)) \<and>
           upper (composite w) =
             (case bnds of Some (u, l) \<Rightarrow> mk u
              | None \<Rightarrow> mk [Segment (topLeft (bounds src)), Segment (topRight (bounds src))])
             \<lparr>visible := False\<rparr> \<and>
           lower (composite w) =
             (case bnds of Some (u, l) \<Rightarrow> mk l
              | None \<Rightarrow> mk [Segment (bottomLeft (bounds src)), Segment (bottomRight (bounds src))])
             \<lparr>visible := False\<rparr> \<and>
           emitted (composite w) = []"
proof -
  define this where "this = \<lparr>source_w = source,
      upper = (case bnds of Some (u, l) \<Rightarrow> mk u
               | None \<Rightarrow> mk [Segment (topLeft (bounds src)), Segment (topRight (bounds src))])
             \<lparr>visible := False\<rparr>,
      lower = (case bnds of Some (u, l) \<Rightarrow> mk l
               | None \<Rightarrow> mk [Segment (bottomLeft (bounds src)), Segment (bottomRight (bounds src))])
             \<lparr>visible := False\<rparr>,
      warped = [], warped_style = None,
      outline = \<lparr>segments_o = [], closed_o = True, fillColor_o = None, opacity_o = 1\<rparr>,
      customStyle_w = None, selected = False, emitted = []\<rparr>"
  define w0 where "w0 = updateOutlineShape \<lparr>heap = h[source := src\<lparr>visible_cp := False\<rparr>], composite = this\<rparr>"
  have valid: "source < length h"
    using assms by (simp add: deref_Inr_iff)
  have "deref (heap w0) (source_w (composite w0)) = Inr (src\<lparr>visible_cp := False\<rparr>)"
    using valid by (simp add: w0_def updateOutlineShape_simps this_def deref_Inr_iff)
  from updateWarped_Inr[OF this] obtain w1 where w1: "updateWarped w0 = Inr w1"
    and h1: "heap w1 = heap w0" and s1: "source_w (composite w1) = source_w (composite w0)"
    and c1: "closed_o (outline (composite w1)) = closed_o (outline (composite w0))"
    and u1: "upper (composite w1) = upper (composite w0)"
    and l1: "lower (composite w1) = lower (composite w0)"
    and e1: "emitted (composite w1) = emitted (composite w0)"
    by simp
  have "DualBoundsPathWarp mk source bnds customStyle h =
        Inr (set_customStyle (case customStyle of Some s \<Rightarrow> s
               | None \<Rightarrow> \<lparr>strokeColor = Some ''lightgray'', backgroundColor = None\<rparr>) w1)"
    using assms w1 by (simp add: DualBoundsPathWarp_def Let_def w0_def this_def)
  moreover have "heap w0 = h[source := src\<lparr>visible_cp := False\<rparr>]"
    "source_w (composite w0) = source" "closed_o (outline (composite w0))"
    "upper (composite w0) = upper this" "lower (composite w0) = lower this"
    "emitted (composite w0) = []"
    by (simp_all add: w0_def updateOutlineShape_simps this_def)
  ultimately show ?thesis
    using h1 s1 c1 u1 l1 e1 by (simp add: set_customStyle_simps this_def)
qed

lemma DualBoundsPathWarp_Inr_D:
  assumes "DualBoundsPathWarp mk source bnds customStyle h = Inr w"
  shows "source_w (composite w) < length (heap w) \<and> closed_o (outline (composite w))"
proof (cases "deref h source")
  case (Inl e)
  then show ?thesis using assms by (simp add: DualBoundsPathWarp_def)
next
  case (Inr src)
  from DualBoundsPathWarp_Inr[OF Inr, of mk bnds customStyle] assms Inr
  show ?thesis by (auto simp add: deref_Inr_iff)
qed

subsection \<open>What every state of a composite satisfies\<close>

text \<open>
  In every state the source reference points at an object of the store, and the outline
  is a closed path: the constructor makes it closed and nothing opens it.
\<close>

lemma reachable_invariant:
  assumes "reachable mk cf w"
  shows "source_w (composite w) < length (heap w) \<and> closed_o (outline (composite w))"
  using assms
proof (induction rule: reachable.induct)
  case (constructed source bnds customStyle h w)
  then show ?case by (rule DualBoundsPathWarp_Inr_D)
next
  case (boundary_edited w u l)
  then show ?case by simp
next
  case (boundary_notified w flags w')
  then show ?case using boundsWatch_keeps[of cf flags w w'] by simp
next
  case (selection_changed w s)
  then show ?case by simp
next
  case (composite_notified w flags)
  then show ?case by (simp add: attributeWatch_simps)
next
  case (source_read w r w')
  then show ?case by (auto simp add: get_source_def split: sum.splits)
next
  case (source_set w v w')
  from updateWarped_Inr_D[OF source_set.hyps(2)[unfolded set_source_def]] source_set
  show ?case by (auto simp add: deref_Inr_iff)
next
  case (style_set w v)
  then show ?case by (simp add: set_customStyle_simps)
next
  case (object_changed w r obj)
  then show ?case by simp
next
  case (object_made w obj)
  then show ?case by simp
qed

subsection \<open>The example composite\<close>

lemma first_world_made:
  "DualBoundsPathWarp line_maker 0 None None [one_child] = Inr first_world"
proof -
  have "deref [one_child] 0 = Inr one_child"
    by (simp add: deref_def)
  from DualBoundsPathWarp_Inr[OF this, of line_maker None None]
  show ?thesis by (auto simp add: first_world_def)
qed

lemma first_world_simps:
  "heap first_world = [one_child\<lparr>visible_cp := False\<rparr>]"
  "source_w (composite first_world) = 0"
  "segments (upper (composite first_world)) = [Segment (Point 0 0), Segment (Point 1 0)]"
  "segments (lower (composite first_world)) = [Segment (Point 0 1), Segment (Point 1 1)]"
  "emitted (composite first_world) = []"
proof -
  have d: "deref [one_child] 0 = Inr one_child"
    by (simp add: deref_def)
  from DualBoundsPathWarp_Inr[OF d, of line_maker None None] first_world_made
  have "heap first_world = [one_child][0 := one_child\<lparr>visible_cp := False\<rparr>]"
    and "source_w (composite first_world) = 0"
    and up: "upper (composite first_world) =
       (line_maker [Segment (topLeft (bounds one_child)), Segment (topRight (bounds one_child))])\<lparr>visible := False\<rparr>"
    and lo: "lower (composite first_world) =
       (line_maker [Segment (bottomLeft (bounds one_child)), Segment (bottomRight (bounds one_child))])\<lparr>visible := False\<rparr>"
    and "emitted (composite first_world) = []"
    by auto
  then show "heap first_world = [one_child\<lparr>visible_cp := False\<rparr>]"
    "source_w (composite first_world) = 0" "emitted (composite first_world) = []"
    by simp_all
  show "segments (upper (composite first_world)) = [Segment (Point 0 0), Segment (Point 1 0)]"
    by (simp add: up line_maker_def one_child_def topRight_def)
  show "segments (lower (composite first_world)) = [Segment (Point 0 1), Segment (Point 1 1)]"
    by (simp add: lo line_maker_def one_child_def bottomLeft_def bottomRight_def)
qed

lemma first_world_source:
  "deref (heap first_world) (source_w (composite first_world)) = Inr (one_child\<lparr>visible_cp := False\<rparr>)"
  by (simp add: first_world_simps deref_def)

subsection \<open>The sampler over an arithmetic\<close>

text \<open>
  The closed form of the loop over any arithmetic: the \<open>k\<close>-th query is made at the
  offset after \<open>k\<close> additions. Over the exact arithmetic the two functions are the
  ones over the reals.
\<close>

lemma tracePathAsPoints_loop_in_eq:
  "tracePathAsPoints_loop_in ar path n L incr i off pts =
     pts @ map (\<lambda>k. getPointAt_in path (min_a ar (((\<lambda>s. plus_a ar s incr) ^^ k) off) L))
             [0..<nat (n - i)]"
proof (induction ar path n L incr i off pts rule: tracePathAsPoints_loop_in.induct)
  case (1 ar path n L incr i off pts)
  show ?case
  proof (cases "i < n")
    case True
    define j where "j = nat (n - (i + 1))"
    have more: "nat (n - i) = Suc j"
      using True by (simp add: j_def)
    have "tracePathAsPoints_loop_in ar path n L incr i off pts =
          tracePathAsPoints_loop_in ar path n L incr (i + 1) (plus_a ar off incr)
            (pts @ [getPointAt_in path (min_a ar off L)])"
      using True by (subst tracePathAsPoints_loop_in.simps) simp
    also have "\<dots> = (pts @ [getPointAt_in path (min_a ar off L)]) @
        map (\<lambda>k. getPointAt_in path (min_a ar (((\<lambda>s. plus_a ar s incr) ^^ k) (plus_a ar off incr)) L))
          [0..<j]"
      unfolding j_def using "1.IH"[OF True] .
    also have "\<dots> = pts @
        map (\<lambda>k. getPointAt_in path (min_a ar (((\<lambda>s. plus_a ar s incr) ^^ k) off) L)) [0..<Suc j]"
    proof -
      have "plus_a ar (((\<lambda>s. plus_a ar s incr) ^^ k) off) incr =
            ((\<lambda>s. plus_a ar s incr) ^^ k) (plus_a ar off incr)" for k
        using funpow_swap1[of "\<lambda>s. plus_a ar s incr" k off] by simp
      then show ?thesis
        by (simp only: map_upt_Suc0) simp
    qed
    finally show ?thesis
      by (simp only: more)
  next
    case False
    then show ?thesis by (subst tracePathAsPoints_loop_in.simps) simp
  qed
qed

lemma offset_after_funpow:
  "offset_after ar incr k = ((\<lambda>s. plus_a ar s incr) ^^ k) (zero_a ar)"
  by (induction k) simp_all

lemma tracePathAsPoints_in_eq:
  "tracePathAsPoints_in ar path n =
     map (\<lambda>k. getPointAt_in path
                (min_a ar (offset_after ar (divide_a ar (length_in path) (of_int_a ar n)) k)
                   (length_in path)))
         [0..<nat n]"
  by (simp add: tracePathAsPoints_in_def tracePathAsPoints_loop_in_eq Let_def offset_after_funpow)

lemma offset_after_exact: "offset_after exact incr k = real k * incr"
  by (induction k) (simp_all add: exact_def algebra_simps)

lemma tracePathAsPoints_in_exact:
  "tracePathAsPoints_in exact \<lparr>length_in = length_c C, getPointAt_in = getPointAt C\<rparr> n =
     tracePathAsPoints C n"
  by (simp add: tracePathAsPoints_in_eq tracePathAsPoints_eq offset_after_exact)
     (simp add: exact_def)

lemma dualBoundsPathProjection_in_exact:
  "dualBoundsPathProjection_in exact
     \<lparr>length_in = length_c up, getPointAt_in = (\<lambda>d. map_option (\<lambda>p. \<lparr>x_in = px p, y_in = py p\<rparr>) (getPointAt up d))\<rparr>
     \<lparr>length_in = length_c lo, getPointAt_in = (\<lambda>d. map_option (\<lambda>p. \<lparr>x_in = px p, y_in = py p\<rparr>) (getPointAt lo d))\<rparr>
     \<lparr>x_in = px p, y_in = py p\<rparr> =
   map_option (\<lambda>p. \<lparr>x_in = px p, y_in = py p\<rparr>) (dualBoundsPathProjection up lo p)"
  by (auto simp add: dualBoundsPathProjection_in_def dualBoundsPathProjection_def exact_def
      add_in_def multiply_in_def subtract_in_def add_def multiply_def subtract_def Let_def)


subsection \<open>The rounding\<close>

text \<open>
  \<open>ilog2\<close> is the binary exponent, and \<open>fl\<close> lands within half a unit of the last
  place of the number it rounds.
\<close>

lemma bits_bounds: "0 < n \<Longrightarrow> 1 \<le> bits n \<and> 2 ^ nat (bits n - 1) \<le> n \<and> n < 2 ^ nat (bits n)"
proof (induction n rule: bits.induct)
  case (1 n)
  have unfold: "bits n = 1 + bits (n div 2)"
    using "1.prems" by (subst bits.simps) simp
  show ?case
  proof (cases "n = 1")
    case True
    have "bits (0::int) = 0" by (subst bits.simps) simp
    then have "bits n = 1" using True unfold by simp
    then show ?thesis using True by simp
  next
    case False
    with "1.prems" have m: "0 < n div 2" by simp
    have "\<not> n \<le> 0" using "1.prems" by simp
    from "1.IH"[OF this m]
    have k: "1 \<le> bits (n div 2)"
      and lo: "2 ^ nat (bits (n div 2) - 1) \<le> n div 2"
      and hi: "n div 2 < 2 ^ nat (bits (n div 2))"
      by simp_all
    define j where "j = nat (bits (n div 2) - 1)"
    have e0: "nat (bits (n div 2)) = Suc j"
      using k by (simp add: j_def)
    have e1: "nat (bits n - 1) = Suc j"
      using k unfold by (simp add: j_def)
    have e2: "nat (bits n) = Suc (Suc j)"
      using k unfold by (simp add: j_def)
    have lo': "(2::int) ^ j \<le> n div 2"
      using lo by (simp add: j_def)
    have hi': "n div 2 < 2 * 2 ^ j"
      using hi by (simp add: e0)
    have "2 * (n div 2) \<le> n" by simp
    moreover have "n < 2 * (n div 2 + 1)" by simp
    ultimately have "2 * 2 ^ j \<le> n \<and> n < 2 * (2 * 2 ^ j)"
      using lo' hi' by linarith
    moreover have "1 \<le> bits n"
      using k unfold by simp
    ultimately show ?thesis
      by (simp add: e1 e2)
  qed
qed

lemma ilog2_bounds:
  assumes "r \<noteq> 0"
  shows "pow2 (ilog2 r) \<le> \<bar>r\<bar> \<and> \<bar>r\<bar> < pow2 (ilog2 r + 1)"
proof (cases "1 \<le> \<bar>r\<bar>")
  case True
  define n where "n = \<lfloor>\<bar>r\<bar>\<rfloor>"
  have n: "0 < n" using True by (simp add: n_def)
  from bits_bounds[OF n] have k: "1 \<le> bits n"
    and lo: "2 ^ nat (bits n - 1) \<le> n" and hi: "n < 2 ^ nat (bits n)"
    by simp_all
  have e: "ilog2 r = bits n - 1"
    using True by (simp add: ilog2_def n_def)
  have "(2::real) ^ nat (bits n - 1) \<le> real_of_int n"
    using lo by simp
  moreover have "real_of_int n \<le> \<bar>r\<bar>" by (simp add: n_def)
  ultimately have "(2::real) ^ nat (bits n - 1) \<le> \<bar>r\<bar>"
    by (rule order_trans)
  then have l: "pow2 (bits n - 1) \<le> \<bar>r\<bar>"
    using k by (simp add: pow2_def)
  have "n + 1 \<le> 2 ^ nat (bits n)" using hi by simp
  then have "real_of_int (n + 1) \<le> real_of_int (2 ^ nat (bits n))"
    by (simp only: of_int_le_iff)
  then have "real_of_int (n + 1) \<le> (2::real) ^ nat (bits n)"
    by (simp only: of_int_power of_int_numeral)
  moreover have "\<bar>r\<bar> < real_of_int (n + 1)"
    unfolding n_def by linarith
  ultimately have "\<bar>r\<bar> < (2::real) ^ nat (bits n)"
    by (rule less_le_trans[rotated])
  then have "\<bar>r\<bar> < pow2 (bits n)"
    using k by (simp add: pow2_def)
  with l show ?thesis by (simp add: e)
next
  case False
  define s where "s = 1 / \<bar>r\<bar>"
  have s1: "1 < s" using False assms by (simp add: s_def)
  define m where "m = \<lceil>s\<rceil> - 1"
  have m: "0 < m" using s1 unfolding m_def by linarith
  have ms: "real_of_int m < s" "s \<le> real_of_int m + 1"
    unfolding m_def by linarith+
  from bits_bounds[OF m] have k: "1 \<le> bits m"
    and lo: "2 ^ nat (bits m - 1) \<le> m" and hi: "m < 2 ^ nat (bits m)"
    by simp_all
  have e: "ilog2 r = - bits m"
    using False by (simp add: ilog2_def m_def s_def)
  have "(2::real) ^ nat (bits m - 1) \<le> real_of_int m"
    using lo by simp
  then have lo': "2 ^ nat (bits m - 1) < s"
    using ms(1) by (rule le_less_trans)
  have "m + 1 \<le> 2 ^ nat (bits m)" using hi by simp
  then have "real_of_int (m + 1) \<le> real_of_int (2 ^ nat (bits m))"
    by (simp only: of_int_le_iff)
  then have "real_of_int (m + 1) \<le> (2::real) ^ nat (bits m)"
    by (simp only: of_int_power of_int_numeral)
  moreover have "s \<le> real_of_int (m + 1)" using ms(2) by simp
  ultimately have hi': "s \<le> 2 ^ nat (bits m)"
    by (rule order_trans[rotated])
  have r: "\<bar>r\<bar> = 1 / s" using assms by (simp add: s_def)
  have "1 / 2 ^ nat (bits m) \<le> 1 / s"
    using hi' s1 by (intro divide_left_mono) simp_all
  then have l: "pow2 (- bits m) \<le> \<bar>r\<bar>"
    using k by (simp add: pow2_def r)
  have u: "\<bar>r\<bar> < pow2 (- bits m + 1)"
  proof (cases "bits m = 1")
    case True
    then show ?thesis using s1 by (simp add: pow2_def r)
  next
    case False
    with k have "nat (- (- bits m + 1)) = nat (bits m - 1)" "\<not> 0 \<le> - bits m + 1"
      by simp_all
    moreover have "1 / s < 1 / 2 ^ nat (bits m - 1)"
      using lo' s1 by (intro divide_strict_left_mono mult_pos_pos) simp_all
    ultimately show ?thesis by (simp add: pow2_def r)
  qed
  from l u show ?thesis by (simp add: e)
qed

lemma round_half_even_near: "\<bar>real_of_int (round_half_even x) - x\<bar> \<le> 1 / 2"
proof -
  have "real_of_int \<lfloor>x\<rfloor> \<le> x" "x < real_of_int \<lfloor>x\<rfloor> + 1"
    by linarith+
  then show ?thesis
    by (auto simp add: round_half_even_def Let_def)
qed

lemma pow2_pos: "0 < pow2 e"
  by (simp add: pow2_def)

lemma fl_near:
  assumes "fl r = Fin v"
  shows "\<bar>v - r\<bar> \<le> pow2 (max (ilog2 r) (- 1022) - 52) / 2"
proof (cases "r = 0")
  case True
  with assms show ?thesis using pow2_pos[of "max (ilog2 0) (- 1022) - 52"]
    by (simp add: fl_def)
next
  case False
  define q where "q = pow2 (max (ilog2 r) (- 1022) - 52)"
  have q: "0 < q" by (simp add: q_def pow2_pos)
  have v: "v = real_of_int (round_half_even (r / q)) * q"
    using assms False by (simp add: fl_def Let_def q_def split: if_splits)
  have "\<bar>real_of_int (round_half_even (r / q)) - r / q\<bar> \<le> 1 / 2"
    by (rule round_half_even_near)
  then have "\<bar>real_of_int (round_half_even (r / q)) - r / q\<bar> * q \<le> 1 / 2 * q"
    using q by (intro mult_right_mono) simp_all
  moreover have "\<bar>real_of_int (round_half_even (r / q)) - r / q\<bar> * q = \<bar>v - r\<bar>"
  proof -
    have "\<bar>real_of_int (round_half_even (r / q)) - r / q\<bar> * q =
          \<bar>(real_of_int (round_half_even (r / q)) - r / q) * q\<bar>"
      using q by (simp add: abs_mult)
    also have "(real_of_int (round_half_even (r / q)) - r / q) * q = v - r"
      using q by (simp add: v left_diff_distrib)
    finally show ?thesis .
  qed
  ultimately show ?thesis by (simp add: q_def)
qed

subsection \<open>Double arithmetic at given numbers\<close>














subsection \<open>The built path\<close>










section \<open>The claims\<close>

subsection \<open>C1: the formula of the projection\<close>

text \<open>
  Claim C1 as the specification words it queries the lower boundary at
  \<open>v * lowerLength\<close>. The code queries it at \<open>u * lowerLength\<close>. With a stationary
  upper boundary, a lower boundary that runs along \<open>y = 1\<close>, and the unit point
  \<open>(1, 1/2)\<close>, the code yields \<open>(1/2, 1/2)\<close> and the wording yields
  \<open>(1/4, 1/2)\<close>.
\<close>

theorem projection_spec_counterexample:
  "dualBoundsPathProjection still_curve ramp_curve (Point 1 (1/2)) = Some (Point (1/2) (1/2)) \<and>
   spec_projection still_curve ramp_curve (Point 1 (1/2)) = Some (Point (1/4) (1/2)) \<and>
   dualBoundsPathProjection still_curve ramp_curve (Point 1 (1/2)) \<noteq>
     spec_projection still_curve ramp_curve (Point 1 (1/2))"
  by (simp add: dualBoundsPathProjection_def spec_projection_def still_curve_def ramp_curve_def
      add_def multiply_def subtract_def)

text \<open>
  Claim C1, amended: for every pair of boundary curves and every unit point
  \<open>(u, v)\<close>, the projection computes \<open>topPoint = upper.pointAt(u * upperLength)\<close> and
  \<open>bottomPoint = lower.pointAt(u * lowerLength)\<close>, both at the same \<open>u\<close>, each against
  the length of its own boundary, and when both points exist it returns
  \<open>topPoint + (bottomPoint - topPoint) * v\<close>.
\<close>

theorem projection_formula:
  assumes "getPointAt up (px p * length_c up) = Some topPoint"
    and "getPointAt lo (px p * length_c lo) = Some bottomPoint"
  shows "dualBoundsPathProjection up lo p =
           Some (add topPoint (multiply (subtract bottomPoint topPoint) (py p)))"
  using assms by (simp add: dualBoundsPathProjection_def)

text \<open>The amended formula at the two curves and the unit point above.\<close>

theorem projection_formula_witness:
  "getPointAt still_curve (px (Point 1 (1/2)) * length_c still_curve) = Some (Point 0 0) \<and>
   getPointAt ramp_curve (px (Point 1 (1/2)) * length_c ramp_curve) = Some (Point 1 1) \<and>
   dualBoundsPathProjection still_curve ramp_curve (Point 1 (1/2)) = Some (Point (1/2) (1/2))"
proof -
  have t: "getPointAt still_curve (px (Point 1 (1/2)) * length_c still_curve) = Some (Point 0 0)"
    by (simp add: still_curve_def)
  have b: "getPointAt ramp_curve (px (Point 1 (1/2)) * length_c ramp_curve) = Some (Point 1 1)"
    by (simp add: ramp_curve_def)
  from projection_formula[OF t b] t b show ?thesis
    by (simp add: add_def multiply_def subtract_def)
qed

subsection \<open>C2: the points of the sampler\<close>




subsection \<open>C3: corners and interpolation\<close>




subsection \<open>C4: the winding of a warped contour\<close>




subsection \<open>C5: a boundary changes\<close>

text \<open>
  Claim C5: in every state of a composite, when a boundary notifies a change whose flags
  include \<open>SEGMENTS\<close>, the observer succeeds and leaves the outline a closed path whose
  segments are those of the upper boundary followed by those of the reversed lower
  boundary, the warped contours recomputed from the whole source and the two
  boundaries, and exactly one more notification emitted, with the flag \<open>GEOMETRY\<close>.
\<close>

theorem boundary_change_recomputes:
  assumes "reachable StretchPath cf w" and "flags AND SEGMENTS cf \<noteq> 0"
  shows "\<exists>w' src. boundsWatch cf flags w = Inr w' \<and>
           deref (heap w) (source_w (composite w)) = Inr src \<and>
           segments_o (outline (composite w')) =
             segments (upper (composite w)) @ reverse_p (segments (lower (composite w))) \<and>
           closed_o (outline (composite w')) \<and>
           warped (composite w') =
             map (spec_warp_contour src (upper (composite w)) (lower (composite w))) (children src) \<and>
           emitted (composite w') = emitted (composite w) @ [GEOMETRY cf]"
proof -
  from reachable_invariant[OF assms(1)]
  have valid: "source_w (composite w) < length (heap w)"
    and closed: "closed_o (outline (composite w))"
    by simp_all
  define src where "src = heap w ! source_w (composite w)"
  have src: "deref (heap w) (source_w (composite w)) = Inr src"
    using valid by (simp add: deref_def src_def)
  from boundsWatch_Inr[OF assms(2) src] src closed show ?thesis
    by (simp add: changed_def updateOutlineShape_simps)
qed

text \<open>The composite made from one contour in a unit box, notified with the flag 16.\<close>

theorem boundary_change_recomputes_witness:
  "reachable line_maker paper_flags first_world \<and>
   (16 :: 32 word) AND SEGMENTS paper_flags \<noteq> 0 \<and>
   (\<exists>w'. boundsWatch paper_flags 16 first_world = Inr w' \<and>
         segments_o (outline (composite w')) =
           [Segment (Point 0 0), Segment (Point 1 0), Segment (Point 1 1), Segment (Point 0 1)] \<and>
         closed_o (outline (composite w')) \<and>
         length (warped (composite w')) = 1 \<and>
         emitted (composite w') = [8])"
proof -
  have r: "reachable line_maker paper_flags first_world"
    using first_world_made by (rule reachable.constructed)
  have f: "(16 :: 32 word) AND SEGMENTS paper_flags \<noteq> 0"
    by (simp add: paper_flags_def)
  from boundary_change_recomputes[OF r f] first_world_source
  obtain w' where "boundsWatch paper_flags 16 first_world = Inr w'"
    and "segments_o (outline (composite w')) =
           segments (upper (composite first_world)) @ reverse_p (segments (lower (composite first_world)))"
    and "closed_o (outline (composite w'))"
    and "warped (composite w') =
           map (spec_warp_contour (one_child\<lparr>visible_cp := False\<rparr>) (upper (composite first_world))
                  (lower (composite first_world))) (children (one_child\<lparr>visible_cp := False\<rparr>))"
    and "emitted (composite w') = emitted (composite first_world) @ [GEOMETRY paper_flags]"
    by auto
  then show ?thesis using r f
    by (simp add: first_world_simps reverse_p_def reverse_segment_def Segment_def one_child_def
        paper_flags_def)
qed

subsection \<open>C6: a boundary without a point\<close>

text \<open>
  Claim C6: for every unit point, if either boundary query yields no point, the
  projection returns the top point as it is, present or absent; it has no other outcome,
  so nothing is raised.
\<close>

theorem projection_degenerate:
  assumes "getPointAt up (px p * length_c up) = None \<or> getPointAt lo (px p * length_c lo) = None"
  shows "dualBoundsPathProjection up lo p = getPointAt up (px p * length_c up)"
  using assms by (auto simp add: dualBoundsPathProjection_def)

text \<open>A lower boundary without points gives the top point; an upper boundary without
  points gives none.\<close>

theorem projection_degenerate_witness:
  "(getPointAt still_curve (px (Point 1 1) * length_c still_curve) = None \<or>
    getPointAt empty_curve (px (Point 1 1) * length_c empty_curve) = None) \<and>
   dualBoundsPathProjection still_curve empty_curve (Point 1 1) = Some (Point 0 0) \<and>
   dualBoundsPathProjection empty_curve still_curve (Point 1 1) = None"
proof -
  have h: "getPointAt still_curve (px (Point 1 1) * length_c still_curve) = None \<or>
           getPointAt empty_curve (px (Point 1 1) * length_c empty_curve) = None"
    by (simp add: empty_curve_def)
  have h': "getPointAt empty_curve (px (Point 1 1) * length_c empty_curve) = None \<or>
            getPointAt still_curve (px (Point 1 1) * length_c still_curve) = None"
    by (simp add: empty_curve_def)
  from projection_degenerate[OF h] projection_degenerate[OF h'] h show ?thesis
    by (simp add: still_curve_def empty_curve_def)
qed

subsection \<open>C7: a compound path without children\<close>

text \<open>
  Claim C7: for every integer \<open>pointsPerPath\<close>, tracing a compound path that has no
  children yields \<^verbatim>\<open>null\<close>, in both versions of \<^verbatim>\<open>traceCompoundPath\<close>.
\<close>

theorem empty_compound_yields_null:
  assumes "children cp = []"
  shows "traceCompoundPath cp pointsPerPath = None \<and>
         PathHelper_traceCompoundPath cp pointsPerPath = None"
  using assms by (simp add: traceCompoundPath_def PathHelper_traceCompoundPath_def)

text \<open>The compound path without children, at 200 points per path.\<close>

theorem empty_compound_yields_null_witness:
  "children no_children = [] \<and>
   traceCompoundPath no_children 200 = None \<and>
   PathHelper_traceCompoundPath no_children 200 = None"
proof -
  have h: "children no_children = []" by (simp add: no_children_def)
  from empty_compound_yields_null[OF h] h show ?thesis by simp
qed

subsection \<open>C8: setting the source\<close>

text \<open>
  Claim C8: setting the source to a compound path stores that reference as the source
  of the composite and recomputes every warped contour from it; both boundaries, their
  segments and lengths included, stay as they were.
\<close>

theorem set_source_frame:
  assumes "deref (heap w) v = Inr src"
  shows "\<exists>w'. set_source v w = Inr w' \<and>
           source_w (composite w') = v \<and>
           deref (heap w') (source_w (composite w')) = Inr src \<and>
           warped (composite w') =
             map (spec_warp_contour src (upper (composite w)) (lower (composite w))) (children src) \<and>
           upper (composite w') = upper (composite w) \<and>
           lower (composite w') = lower (composite w) \<and>
           segments (upper (composite w')) = segments (upper (composite w)) \<and>
           segments (lower (composite w')) = segments (lower (composite w)) \<and>
           length_c (upper (composite w')) = length_c (upper (composite w)) \<and>
           length_c (lower (composite w')) = length_c (lower (composite w))"
proof -
  define w1 where "w1 = w\<lparr>composite := (composite w)\<lparr>source_w := v\<rparr>\<rparr>"
  have "deref (heap w1) (source_w (composite w1)) = Inr src"
    using assms by (simp add: w1_def)
  from updateWarped_Inr[OF this] assms show ?thesis
    by (simp add: set_source_def w1_def)
qed

text \<open>The example composite, given a second compound path as its source.\<close>

theorem set_source_frame_witness:
  "deref (heap (first_world\<lparr>heap := heap first_world @ [no_children]\<rparr>)) 1 = Inr no_children \<and>
   (\<exists>w'. set_source 1 (first_world\<lparr>heap := heap first_world @ [no_children]\<rparr>) = Inr w' \<and>
         source_w (composite w') = 1 \<and>
         warped (composite w') = [] \<and>
         segments (upper (composite w')) = [Segment (Point 0 0), Segment (Point 1 0)] \<and>
         segments (lower (composite w')) = [Segment (Point 0 1), Segment (Point 1 1)])"
proof -
  have d: "deref (heap (first_world\<lparr>heap := heap first_world @ [no_children]\<rparr>)) 1 = Inr no_children"
    by (simp add: first_world_simps deref_def)
  from set_source_frame[OF d] d show ?thesis
    by (auto simp add: first_world_simps no_children_def)
qed

subsection \<open>C9: reading the source\<close>

text \<open>
  Claim C9: reading the source returns a reference to a new object with the contents of
  the source; the composite and every object that existed stay as they were, and
  whatever is then written to the returned object, the source of the composite keeps
  its contents.
\<close>

theorem get_source_clones:
  assumes "deref (heap w) (source_w (composite w)) = Inr src"
  shows "\<exists>r w'. get_source w = Inr (r, w') \<and>
           composite w' = composite w \<and>
           r \<noteq> source_w (composite w) \<and>
           deref (heap w') r = Inr src \<and>
           (\<forall>a < length (heap w). heap w' ! a = heap w ! a) \<and>
           (\<forall>obj. deref ((heap w')[r := obj]) (source_w (composite w')) = Inr src)"
proof -
  have valid: "source_w (composite w) < length (heap w)"
    and src: "src = heap w ! source_w (composite w)"
    using assms by (simp_all add: deref_Inr_iff)
  have "get_source w = Inr (length (heap w), w\<lparr>heap := heap w @ [src]\<rparr>)"
    using assms by (simp add: get_source_def)
  moreover have "length (heap w) \<noteq> source_w (composite w)"
    using valid by simp
  moreover have "deref (heap w @ [src]) (length (heap w)) = Inr src"
    by (simp add: deref_def)
  moreover have "\<forall>a < length (heap w). (heap w @ [src]) ! a = heap w ! a"
    by (simp add: nth_append)
  moreover have "deref ((heap w @ [src])[length (heap w) := obj]) (source_w (composite w)) = Inr src" for obj
    using valid by (simp add: deref_def src nth_append)
  ultimately show ?thesis by simp
qed

text \<open>The example composite: the clone is the second object of the store, and
  overwriting it leaves the source alone.\<close>

theorem get_source_clones_witness:
  "deref (heap first_world) (source_w (composite first_world)) = Inr (one_child\<lparr>visible_cp := False\<rparr>) \<and>
   (\<exists>w'. get_source first_world = Inr (1, w') \<and>
         composite w' = composite first_world \<and>
         deref (heap w') 1 = Inr (one_child\<lparr>visible_cp := False\<rparr>) \<and>
         deref ((heap w')[1 := no_children]) (source_w (composite w')) =
           Inr (one_child\<lparr>visible_cp := False\<rparr>))"
proof -
  from get_source_clones[OF first_world_source]
  obtain r w' where g: "get_source first_world = Inr (r, w')"
    and c: "composite w' = composite first_world"
    and d: "deref (heap w') r = Inr (one_child\<lparr>visible_cp := False\<rparr>)"
    and m: "\<forall>obj. deref ((heap w')[r := obj]) (source_w (composite w')) =
              Inr (one_child\<lparr>visible_cp := False\<rparr>)"
    by blast
  have "r = 1"
    using g first_world_source by (simp add: get_source_def first_world_simps)
  with g c d m first_world_source show ?thesis by simp
qed

subsection \<open>C10: the distances the sampler asks about\<close>

text \<open>
  Claim C10: for every path of non-negative length and every integer
  \<open>numPoints \<ge> 1\<close>, the sampler makes \<open>numPoints\<close> queries, the increment
  \<open>length / numPoints\<close> is not negative, and every distance it passes to
  \<^verbatim>\<open>getPointAt\<close> lies between 0 and the length of the path.
\<close>

theorem sampler_queries_in_range:
  assumes "0 \<le> length_c p" and "1 \<le> numPoints"
  shows "tracePathAsPoints p numPoints = map (getPointAt p) (tracePathAsPoints_offsets p numPoints) \<and>
         int (length (tracePathAsPoints_offsets p numPoints)) = numPoints \<and>
         0 \<le> length_c p / of_int numPoints \<and>
         (\<forall>d \<in> set (tracePathAsPoints_offsets p numPoints). 0 \<le> d \<and> d \<le> length_c p)"
proof -
  have incr: "0 \<le> length_c p / of_int numPoints"
    using assms by simp
  have "0 \<le> d \<and> d \<le> length_c p" if "d \<in> set (tracePathAsPoints_offsets p numPoints)" for d
  proof -
    from that obtain k where d: "d = min (real k * (length_c p / of_int numPoints)) (length_c p)"
      by (auto simp add: tracePathAsPoints_offsets_eq)
    have "0 \<le> real k * (length_c p / of_int numPoints)"
      using incr by (intro mult_nonneg_nonneg) simp_all
    then show ?thesis using assms(1) by (simp add: d)
  qed
  moreover have "int (length (tracePathAsPoints_offsets p numPoints)) = numPoints"
    using assms(2) by (simp add: tracePathAsPoints_offsets_eq)
  ultimately show ?thesis using incr tracePathAsPoints_asks[of p numPoints] by blast
qed

text \<open>Three samples of the straight unit path: the distances are 0, 1/3 and 2/3.\<close>

theorem sampler_queries_in_range_witness:
  "0 \<le> length_c line_path \<and> (1::int) \<le> 3 \<and>
   tracePathAsPoints_offsets line_path 3 = [0, 1/3, 2/3] \<and>
   tracePathAsPoints line_path 3 = [Some (Point 0 0), Some (Point (1/3) 0), Some (Point (2/3) 0)] \<and>
   list_all (\<lambda>d. 0 \<le> d \<and> d \<le> length_c line_path) (tracePathAsPoints_offsets line_path 3)"
proof -
  have h1: "0 \<le> length_c line_path" by (simp add: line_path_def)
  have h2: "(1::int) \<le> 3" by simp
  note inst = sampler_queries_in_range[OF h1 h2]
  have upt3: "[0..<nat 3] = [0, 1, 2]"
    by (simp add: eval_nat_numeral)
  have len: "length_c line_path = 1"
    by (simp add: line_path_def)
  have offs: "tracePathAsPoints_offsets line_path 3 = [0, 1/3, 2/3]"
    using upt3 len by (simp add: tracePathAsPoints_offsets_eq)
  have gp: "getPointAt line_path d = (if 0 \<le> d \<and> d \<le> 1 then Some (Point d 0) else None)" for d
    by (simp add: line_path_def)
  from inst have "tracePathAsPoints line_path 3 =
      map (getPointAt line_path) (tracePathAsPoints_offsets line_path 3)"
    by blast
  then have pts: "tracePathAsPoints line_path 3 =
      [Some (Point 0 0), Some (Point (1/3) 0), Some (Point (2/3) 0)]"
    by (simp add: offs gp)
  from inst have "\<forall>d \<in> set (tracePathAsPoints_offsets line_path 3). 0 \<le> d \<and> d \<le> length_c line_path"
    by blast
  then have "list_all (\<lambda>d. 0 \<le> d \<and> d \<le> length_c line_path) (tracePathAsPoints_offsets line_path 3)"
    by (simp only: list_all_iff)
  then show ?thesis using h1 offs pts by simp
qed

end
